theory Spec2Isabelle
  imports Complex_Main "HOL-Library.Char_ord" "HOL-Library.List_Lexorder"
begin

section \<open>Paths: the functions of \<^verbatim>\<open>os.path\<close> that the import operators call\<close>

text \<open>
  The operators of \<^verbatim>\<open>photogrammetry_import_op.py\<close> call \<^verbatim>\<open>os.path.dirname\<close>,
  \<^verbatim>\<open>os.path.join\<close> and \<^verbatim>\<open>os.path.isdir\<close>. The first two are pure string functions; they
  are modelled here as the POSIX flavour of the standard library (\<^verbatim>\<open>posixpath\<close>) defines
  them, on strings as character lists. The third reads the file system and is a parameter
  \<open>isdir\<close> of every function that calls it.
\<close>

definition sep :: char where
  "sep = CHR ''/''"

text \<open>\<^verbatim>\<open>str.rfind(c)\<close>: the highest index of \<open>c\<close>, or \<open>-1\<close> when \<open>c\<close> does not occur.\<close>

fun rfind :: "string \<Rightarrow> char \<Rightarrow> int" where
  "rfind [] c = - 1"
| "rfind (x # xs) c =
     (let r = rfind xs c in if 0 \<le> r then r + 1 else if x = c then 0 else - 1)"

text \<open>\<^verbatim>\<open>str.rstrip(c)\<close>: the string without its trailing run of \<open>c\<close>.\<close>

definition rstrip :: "string \<Rightarrow> char \<Rightarrow> string" where
  "rstrip s c = rev (dropWhile (\<lambda>x. x = c) (rev s))"

definition startswith :: "string \<Rightarrow> char \<Rightarrow> bool" where
  "startswith s c = (case s of [] \<Rightarrow> False | x # _ \<Rightarrow> x = c)"

definition endswith :: "string \<Rightarrow> char \<Rightarrow> bool" where
  "endswith s c = (s \<noteq> [] \<and> last s = c)"

text \<open>
  \<^verbatim>\<open>posixpath.dirname\<close>:
  \<^verbatim>\<open>
    i = p.rfind(sep) + 1
    head = p[:i]
    if head and head != sep*len(head):
        head = head.rstrip(sep)
    return head
  \<close>
\<close>

definition dirname :: "string \<Rightarrow> string" where
  "dirname p =
     (let i = rfind p sep + 1;
          head = take (nat i) p
      in if head \<noteq> [] \<and> head \<noteq> replicate (length head) sep
         then rstrip head sep else head)"

text \<open>
  \<^verbatim>\<open>posixpath.join\<close> with one component after the first:
  \<^verbatim>\<open>
    path = a
    if b.startswith(sep):                 path = b
    elif not path or path.endswith(sep):  path += b
    else:                                 path += sep + b
    return path
  \<close>
\<close>

definition join :: "string \<Rightarrow> string \<Rightarrow> string" where
  "join a b =
     (if startswith b sep then b
      else if a = [] \<or> endswith a sep then a @ b
      else a @ [sep] @ b)"

section \<open>The default image path\<close>

text \<open>
  \<^verbatim>\<open>get_default_image_path(reconstruction_fp, image_dp)\<close>. The result is paired with the list
  of paths on which \<^verbatim>\<open>os.path.isdir\<close> was called, in call order, so that the search the
  function performs on the file system is part of what it returns.
\<close>

definition get_default_image_path ::
    "(string \<Rightarrow> bool) \<Rightarrow> string \<Rightarrow> string \<Rightarrow> string \<times> string list" where
  "get_default_image_path isdir reconstruction_fp image_dp =
     (if image_dp = [] then
        (let image_default_same_dp = dirname reconstruction_fp;
             image_default_sub_dp = join image_default_same_dp ''images''
         in if isdir image_default_sub_dp
            then (image_default_sub_dp, [image_default_sub_dp])
            else (image_default_same_dp, [image_default_sub_dp]))
      else (image_dp, []))"

section \<open>The import operators\<close>

text \<open>
  The properties of an operator that its \<^verbatim>\<open>execute\<close> reads or writes. \<open>directory\<close> and
  \<open>filepath\<close> are set by the file browser; \<open>path_to_images\<close>, \<open>default_width\<close> and
  \<open>default_height\<close> come from \<^verbatim>\<open>CameraImportProperties\<close>, \<open>path_to_transformations\<close> from
  \<^verbatim>\<open>TransformationImportProperties\<close>.
\<close>

record import_op =
  directory :: string
  filepath :: string
  path_to_images :: string
  default_width :: int
  default_height :: int
  path_to_transformations :: string

text \<open>
  The first statements of each \<^verbatim>\<open>execute\<close>, up to the call of the file handler: the path
  handed to the handler, and the operator with \<open>path_to_images\<close> assigned. (The
  \<^verbatim>\<open>self.report\<close> calls in between only print these two values.)
\<close>

definition ImportColmap_path :: "import_op \<Rightarrow> string" where
  "ImportColmap_path self = dirname (directory self)"

definition ImportColmap_prepare :: "(string \<Rightarrow> bool) \<Rightarrow> import_op \<Rightarrow> string \<times> import_op" where
  "ImportColmap_prepare isdir self =
     (let path = ImportColmap_path self
      in (path, self\<lparr>path_to_images :=
                       fst (get_default_image_path isdir path (path_to_images self))\<rparr>))"

definition ImportNVM_prepare :: "(string \<Rightarrow> bool) \<Rightarrow> import_op \<Rightarrow> string \<times> import_op" where
  "ImportNVM_prepare isdir self =
     (let path = join (directory self) (filepath self)
      in (path, self\<lparr>path_to_images :=
                       fst (get_default_image_path isdir path (path_to_images self))\<rparr>))"

definition ImportOpenMVG_prepare :: "(string \<Rightarrow> bool) \<Rightarrow> import_op \<Rightarrow> string \<times> import_op" where
  "ImportOpenMVG_prepare isdir self =
     (let path = join (directory self) (filepath self)
      in (path, self\<lparr>path_to_images :=
                       fst (get_default_image_path isdir path (path_to_images self))\<rparr>))"

definition ImportMeshroom_prepare :: "(string \<Rightarrow> bool) \<Rightarrow> import_op \<Rightarrow> string \<times> import_op" where
  "ImportMeshroom_prepare isdir self =
     (let path = join (directory self) (filepath self)
      in (path, self\<lparr>path_to_images :=
                       fst (get_default_image_path isdir path (path_to_images self))\<rparr>))"

text \<open>
  \<^verbatim>\<open>ImportNVM.enhance_camera_with_images\<close>: the call is handed on to
  \<^verbatim>\<open>NVMFileHandler.parse_camera_image_files\<close>, here the parameter of that name, with the
  operator's \<open>path_to_images\<close>, \<open>default_width\<close> and \<open>default_height\<close>, and the operator
  itself for reporting; what the handler returns is returned as it is.
\<close>

definition ImportNVM_enhance_camera_with_images ::
    "('c list \<Rightarrow> string \<Rightarrow> int \<Rightarrow> int \<Rightarrow> import_op \<Rightarrow> 'r) \<Rightarrow> import_op \<Rightarrow> 'c list \<Rightarrow> 'r" where
  "ImportNVM_enhance_camera_with_images parse_camera_image_files self cameras =
     parse_camera_image_files cameras (path_to_images self) (default_width self)
       (default_height self) self"

text \<open>
  \<^verbatim>\<open>ImportNVM.execute\<close>, the whole of it: the NVM file is parsed by
  \<^verbatim>\<open>NVMFileHandler.parse_nvm_file\<close>, then the cameras and the points are imported by the
  methods \<^verbatim>\<open>import_photogrammetry_cameras\<close> and \<^verbatim>\<open>import_photogrammetry_points\<close> that the
  operator inherits. The three callees are parameters; each is called with the operator
  as it is after \<open>path_to_images\<close> was assigned. An exception raised by a callee is not
  caught, so it ends \<open>execute\<close> (\<open>Inl\<close>); otherwise \<open>execute\<close> returns \<^verbatim>\<open>{'FINISHED'}\<close>, here
  \<open>Inr\<close> of what the two import methods did.
\<close>

definition ImportNVM_execute ::
    "(string \<Rightarrow> bool) \<Rightarrow> (string \<Rightarrow> import_op \<Rightarrow> 'e + 'c \<times> 'p) \<Rightarrow> (import_op \<Rightarrow> 'c \<Rightarrow> 'e + 'a)
      \<Rightarrow> (import_op \<Rightarrow> 'p \<Rightarrow> 'e + 'b) \<Rightarrow> import_op \<Rightarrow> 'e + 'a \<times> 'b" where
  "ImportNVM_execute isdir parse_nvm_file import_photogrammetry_cameras
       import_photogrammetry_points self =
     (let (path, self') = ImportNVM_prepare isdir self
      in case parse_nvm_file path self' of
           Inl e \<Rightarrow> Inl e
         | Inr (cameras, points) \<Rightarrow>
             (case import_photogrammetry_cameras self' cameras of
                Inl e \<Rightarrow> Inl e
              | Inr cameras_done \<Rightarrow>
                  (case import_photogrammetry_points self' points of
                     Inl e \<Rightarrow> Inl e
                   | Inr points_done \<Rightarrow> Inr (cameras_done, points_done))))"

text \<open>
  \<^verbatim>\<open>ImportPLY.execute\<close>: the points of \<^verbatim>\<open>PLYFileHandler.parse_ply_file\<close> and the sorted
  transformations of \<^verbatim>\<open>TransformationFileHandler.parse_transformation_folder\<close> are handed
  to \<^verbatim>\<open>import_photogrammetry_points\<close>. The three callees are parameters; an exception
  raised by a handler is not caught, so it ends \<open>execute\<close> (\<open>Inl\<close>).
\<close>

definition ImportPLY_execute ::
    "(string \<Rightarrow> 'e + 'p) \<Rightarrow> (string \<Rightarrow> import_op \<Rightarrow> 'e + 't) \<Rightarrow> ('p \<Rightarrow> 't \<Rightarrow> 'r)
      \<Rightarrow> import_op \<Rightarrow> 'e + 'r" where
  "ImportPLY_execute parse_ply_file parse_transformation_folder import_photogrammetry_points self =
     (let path = join (directory self) (filepath self)
      in case parse_ply_file path of
           Inl e \<Rightarrow> Inl e
         | Inr points \<Rightarrow>
             (case parse_transformation_folder (path_to_transformations self) self of
                Inl e \<Rightarrow> Inl e
              | Inr transformations_sorted \<Rightarrow>
                  Inr (import_photogrammetry_points points transformations_sorted)))"

text \<open>
  The part of a path up to and including its last separator (\<open>head\<close> in
  \<^verbatim>\<open>posixpath.dirname\<close>, before trailing separators are stripped), written without indices.
\<close>

definition path_head :: "string \<Rightarrow> string" where
  "path_head p = rev (dropWhile (\<lambda>x. x \<noteq> sep) (rev p))"

section \<open>The unified data model\<close>

text \<open>
  Modelled from the spec: the \<open>Camera\<close>, \<open>Point\<close> and \<open>RigidTransform\<close> types of its data
  model (section 3); the classes that define them are not among the sources. Coordinates
  are real numbers. A camera's \<open>id\<close> is \<open>camera_id\<close> here and a point's is \<open>point_id\<close>; the
  rotation of a rigid transform is taken as a 3 by 3 matrix, given by its rows.
\<close>

type_synonym vec3 = "real \<times> real \<times> real"

type_synonym mat3 = "vec3 \<times> vec3 \<times> vec3"

type_synonym quaternion = "real \<times> real \<times> real \<times> real"

type_synonym rgb = "nat \<times> nat \<times> nat"

record Intrinsics =
  focal_length :: "real list"
  principal_point :: "real \<times> real"
  distortion :: "real list"

record Camera =
  camera_id :: int
  image_path :: string
  width :: "int option"
  height :: "int option"
  intrinsics :: Intrinsics
  cam_rotation :: quaternion
  cam_translation :: vec3
  cam_color :: "rgb option"

record Point =
  point_id :: int
  position :: vec3
  color :: rgb
  measurements :: "(int \<times> real \<times> real) list option"

record RigidTransform =
  rotation :: mat3
  translation :: vec3
  scale :: real

text \<open>
  Modelled from the spec: the error kinds of its section 7 that abort a parse, and the
  non-fatal \<open>UnresolvedImage\<close>, which is reported as a warning for one camera.
\<close>

datatype import_error = MalformedFile string | MissingReference string

datatype warning = UnresolvedImage int

section \<open>Rigid transforms and the transformation chain\<close>

text \<open>
  Modelled from the spec: the arithmetic of \<open>scale * rotation * p + translation\<close> on
  vectors of three reals: the dot product, a matrix times a vector, a scalar times a vector
  and the sum of two vectors.
\<close>

fun dot :: "vec3 \<Rightarrow> vec3 \<Rightarrow> real" where
  "dot (a, b, c) (x, y, z) = a * x + b * y + c * z"

fun mat_vec :: "mat3 \<Rightarrow> vec3 \<Rightarrow> vec3" where
  "mat_vec (r1, r2, r3) p = (dot r1 p, dot r2 p, dot r3 p)"

fun scale_vec :: "real \<Rightarrow> vec3 \<Rightarrow> vec3" where
  "scale_vec s (x, y, z) = (s * x, s * y, s * z)"

fun add_vec :: "vec3 \<Rightarrow> vec3 \<Rightarrow> vec3" where
  "add_vec (a, b, c) (x, y, z) = (a + x, b + y, c + z)"

text \<open>
  Modelled from the spec: how a \<open>RigidTransform\<close> acts on a point \<open>p\<close>, which is
  \<open>scale * rotation * p + translation\<close> (section 3).
\<close>

definition apply_transform :: "RigidTransform \<Rightarrow> vec3 \<Rightarrow> vec3" where
  "apply_transform T p =
     add_vec (scale_vec (scale T) (mat_vec (rotation T) p)) (translation T)"

text \<open>
  Modelled from the spec: the effective transform of an ordered sequence of transforms,
  \<open>T_n \<circ> \<dots> \<circ> T_2 \<circ> T_1\<close>, chained in listed order: the first transform of the list is applied
  to the point first.
\<close>

fun effective_transform :: "RigidTransform list \<Rightarrow> vec3 \<Rightarrow> vec3" where
  "effective_transform [] p = p"
| "effective_transform (T # Ts) p = effective_transform Ts (apply_transform T p)"

text \<open>
  Modelled from the spec: \<^verbatim>\<open>TransformationFileHandler.parse_transformation_folder\<close>, the
  transformation-chain parser of section 4.6, which is not among the sources. The
  directory is its listing, file names with file contents in the order the file system
  lists them, or \<open>None\<close> when the directory is absent. The expected naming pattern
  \<open>matches\<close> and the decoder \<open>parse_file\<close> of one file are parameters: the spec fixes
  neither. Files are ordered by file name, lexicographically; an absent or empty directory
  gives the empty sequence; a file that matches the pattern and cannot be parsed fails the
  whole operation, reported by its file name.
\<close>

fun parse_files ::
    "('c \<Rightarrow> RigidTransform option) \<Rightarrow> (string \<times> 'c) list \<Rightarrow> import_error + RigidTransform list" where
  "parse_files parse_file [] = Inr []"
| "parse_files parse_file ((name, content) # rest) =
     (case parse_file content of
        None \<Rightarrow> Inl (MalformedFile name)
      | Some T \<Rightarrow>
          (case parse_files parse_file rest of
             Inl e \<Rightarrow> Inl e
           | Inr Ts \<Rightarrow> Inr (T # Ts)))"

definition parse_transformation_folder ::
    "(string \<Rightarrow> bool) \<Rightarrow> ('c \<Rightarrow> RigidTransform option) \<Rightarrow> (string \<times> 'c) list option
      \<Rightarrow> import_error + RigidTransform list" where
  "parse_transformation_folder matches parse_file dir =
     (case dir of
        None \<Rightarrow> Inr []
      | Some listing \<Rightarrow>
          parse_files parse_file (sort_key fst (filter (\<lambda>f. matches (fst f)) listing)))"

text \<open>
  Modelled from the spec: the step of the normalization pass (section 4.7, step c) that
  applies the composed transform of the chain to every point position; it stands for
  \<^verbatim>\<open>import_photogrammetry_points\<close> with a list of transformations, which is not among the
  sources.
\<close>

definition transform_points :: "RigidTransform list \<Rightarrow> Point list \<Rightarrow> Point list" where
  "transform_points Ts points =
     map (\<lambda>pt. pt\<lparr>position := effective_transform Ts (position pt)\<rparr>) points"

section \<open>Image resolution for NVM cameras\<close>

text \<open>
  Modelled from the spec: \<^verbatim>\<open>NVMFileHandler.parse_camera_image_files\<close>, the
  \<open>resolve_images\<close> of section 4.2, which is not among the sources. \<open>read_size\<close> is the file
  system: the pixel dimensions of the image at a path, or \<open>None\<close> when no image can be
  located or read there. For every camera whose width or height is unset the referenced
  image file, resolved against the image directory, is opened to read its dimensions; if
  that fails the camera gets the caller's default dimensions and one \<open>UnresolvedImage\<close>
  warning is reported for it. The call returns the cameras and whether every image was
  resolved; with them come its effects, the warnings it reported and the paths of the
  files it tried to open, each in camera order.
\<close>

definition dimensions_unset :: "Camera \<Rightarrow> bool" where
  "dimensions_unset c = (width c = None \<or> height c = None)"

definition resolve_camera ::
    "(string \<Rightarrow> (int \<times> int) option) \<Rightarrow> string \<Rightarrow> int \<Rightarrow> int \<Rightarrow> Camera
      \<Rightarrow> Camera \<times> warning list \<times> string list" where
  "resolve_camera read_size image_dir default_w default_h c =
     (if dimensions_unset c then
        (let image_fp = join image_dir (image_path c)
         in case read_size image_fp of
              Some (w, h) \<Rightarrow> (c\<lparr>width := Some w, height := Some h\<rparr>, [], [image_fp])
            | None \<Rightarrow> (c\<lparr>width := Some default_w, height := Some default_h\<rparr>,
                       [UnresolvedImage (camera_id c)], [image_fp]))
      else (c, [], []))"

fun resolve_all ::
    "(string \<Rightarrow> (int \<times> int) option) \<Rightarrow> string \<Rightarrow> int \<Rightarrow> int \<Rightarrow> Camera list
      \<Rightarrow> Camera list \<times> warning list \<times> string list" where
  "resolve_all read_size image_dir default_w default_h [] = ([], [], [])"
| "resolve_all read_size image_dir default_w default_h (c # cs) =
     (let (c', w, f) = resolve_camera read_size image_dir default_w default_h c;
          (cs', ws, fs) = resolve_all read_size image_dir default_w default_h cs
      in (c' # cs', w @ ws, f @ fs))"

definition resolve_images ::
    "(string \<Rightarrow> (int \<times> int) option) \<Rightarrow> Camera list \<Rightarrow> string \<Rightarrow> int \<Rightarrow> int
      \<Rightarrow> (Camera list \<times> bool) \<times> warning list \<times> string list" where
  "resolve_images read_size cameras image_dir default_width' default_height' =
     (let (cameras', warnings, opened) =
            resolve_all read_size image_dir default_width' default_height' cameras
      in ((cameras', warnings = []), warnings, opened))"

text \<open>
  Modelled from the spec: a camera whose image \<open>cannot be located or read\<close> during
  resolution. Its dimensions are unset, so resolution looks for its image, and no image
  can be read at the path its file name resolves to.
\<close>

definition unresolved :: "(string \<Rightarrow> (int \<times> int) option) \<Rightarrow> string \<Rightarrow> Camera \<Rightarrow> bool" where
  "unresolved read_size image_dir c =
     (dimensions_unset c \<and> read_size (join image_dir (image_path c)) = None)"

section \<open>The NVM import as a whole\<close>

text \<open>
  Modelled from the spec: \<^verbatim>\<open>CameraImportProperties.import_photogrammetry_cameras\<close>, which
  is not among the sources. It calls the operator's \<^verbatim>\<open>enhance_camera_with_images\<close> (the
  method that \<^verbatim>\<open>ImportNVM\<close> overrides) and hands the cameras that come back to the scene
  whether or not every image was resolved: an unresolved image is non-fatal, the import
  continues with the default dimensions, and the warnings are returned alongside the
  result (sections 4.2, 7 and 8). What it did is the record below: the cameras now in the
  scene, the partial-success indicator, the warnings reported and the image files opened.
\<close>

record camera_import =
  scene_cameras :: "Camera list"
  all_resolved :: bool
  reported :: "warning list"
  files_opened :: "string list"

definition import_photogrammetry_cameras ::
    "(import_op \<Rightarrow> Camera list \<Rightarrow> (Camera list \<times> bool) \<times> warning list \<times> string list)
      \<Rightarrow> import_op \<Rightarrow> Camera list \<Rightarrow> import_error + camera_import" where
  "import_photogrammetry_cameras enhance_camera_with_images self cameras =
     (case enhance_camera_with_images self cameras of
        ((cameras', success), warnings, opened) \<Rightarrow>
          Inr \<lparr>scene_cameras = cameras', all_resolved = success, reported = warnings,
               files_opened = opened\<rparr>)"

text \<open>
  The NVM import with its parts put together: \<^verbatim>\<open>ImportNVM.execute\<close>, whose camera import
  is the one above, calling \<^verbatim>\<open>ImportNVM.enhance_camera_with_images\<close>, whose handler is
  \<open>resolve_images\<close> on the file system \<open>read_size\<close>. The parser of the NVM file and the
  import of the points stay parameters.
\<close>

definition ImportNVM_import ::
    "(string \<Rightarrow> bool) \<Rightarrow> (string \<Rightarrow> (int \<times> int) option)
      \<Rightarrow> (string \<Rightarrow> import_op \<Rightarrow> import_error + Camera list \<times> 'p)
      \<Rightarrow> (import_op \<Rightarrow> 'p \<Rightarrow> import_error + 'b) \<Rightarrow> import_op
      \<Rightarrow> import_error + camera_import \<times> 'b" where
  "ImportNVM_import isdir read_size parse_nvm_file import_photogrammetry_points self =
     ImportNVM_execute isdir parse_nvm_file
       (import_photogrammetry_cameras
          (ImportNVM_enhance_camera_with_images
             (\<lambda>cameras image_dir dw dh op. resolve_images read_size cameras image_dir dw dh)))
       import_photogrammetry_points self"

section \<open>Example values\<close>

text \<open>
  Values at which the theorems below are instantiated: a camera as it is before image
  resolution, with no dimensions yet, and the rotation that turns nothing.
\<close>

definition camera_without_size :: "int \<Rightarrow> string \<Rightarrow> Camera" where
  "camera_without_size i name =
     \<lparr>camera_id = i, image_path = name, width = None, height = None,
      intrinsics = \<lparr>focal_length = [1], principal_point = (0, 0), distortion = []\<rparr>,
      cam_rotation = (1, 0, 0, 0), cam_translation = (0, 0, 0), cam_color = None\<rparr>"

definition identity_rotation :: mat3 where
  "identity_rotation = ((1, 0, 0), (0, 1, 0), (0, 0, 1))"

section \<open>Facts about the path functions\<close>

lemma rfind_ge: "- 1 \<le> rfind p c"
  by (induction p) (auto simp: Let_def)

lemma rfind_neg_iff: "rfind p c < 0 \<longleftrightarrow> c \<notin> set p"
  by (induction p) (auto simp: Let_def)

lemma rfind_notin: "c \<notin> set p \<Longrightarrow> rfind p c = - 1"
  using rfind_ge [of p c] rfind_neg_iff [of p c] by linarith

lemma take_rfind:
  "take (nat (rfind p c + 1)) p = rev (dropWhile (\<lambda>x. x \<noteq> c) (rev p))"
proof (induction p)
  case Nil
  show ?case by simp
next
  case (Cons x xs)
  show ?case
  proof (cases "c \<in> set xs")
    case True
    then have r: "0 \<le> rfind xs c" using rfind_neg_iff [of xs c] by simp
    then have n: "nat (rfind xs c + 1 + 1) = Suc (nat (rfind xs c + 1))" by simp
    from True have "dropWhile (\<lambda>x. x \<noteq> c) (rev xs @ [x]) = dropWhile (\<lambda>x. x \<noteq> c) (rev xs) @ [x]"
      by (intro dropWhile_append1 [of c]) auto
    with r n Cons show ?thesis by (simp add: Let_def)
  next
    case False
    then have r: "rfind xs c = - 1" by (rule rfind_notin)
    from False have "dropWhile (\<lambda>x. x \<noteq> c) (rev xs @ [x]) = dropWhile (\<lambda>x. x \<noteq> c) [x]"
      by (intro dropWhile_append2) auto
    with r show ?thesis by (simp add: Let_def)
  qed
qed

lemma dirname_head:
  "dirname p =
     (if path_head p \<noteq> [] \<and> path_head p \<noteq> replicate (length (path_head p)) sep
      then rstrip (path_head p) sep else path_head p)"
  unfolding dirname_def Let_def take_rfind path_head_def by (rule refl)

lemma path_head_endswith: "p \<noteq> [] \<Longrightarrow> last p = sep \<Longrightarrow> path_head p = p"
  by (cases p rule: rev_cases) (auto simp: path_head_def)

lemma path_head_split:
  "p = path_head p @ rev (takeWhile (\<lambda>x. x \<noteq> sep) (rev p))"
  unfolding path_head_def
  by (metis rev_append rev_rev_ident takeWhile_dropWhile_id)

lemma rstrip_split: "\<exists>k. s = rstrip s c @ replicate k c"
proof -
  let ?run = "takeWhile (\<lambda>x. x = c) (rev s)"
  have "rev s = ?run @ dropWhile (\<lambda>x. x = c) (rev s)" by simp
  moreover have "?run = replicate (length ?run) c"
    by (metis (mono_tags, lifting) replicate_length_same set_takeWhileD)
  ultimately have "rev s = replicate (length ?run) c @ rev (rstrip s c)"
    by (simp add: rstrip_def)
  then have "s = rstrip s c @ replicate (length ?run) c"
    by (metis rev_append rev_replicate rev_rev_ident)
  then show ?thesis ..
qed

lemma rstrip_last: "rstrip s c \<noteq> [] \<Longrightarrow> last (rstrip s c) \<noteq> c"
  unfolding rstrip_def
  by (metis (mono_tags, lifting) hd_dropWhile last_rev rev_is_Nil_conv)

lemma rstrip_snoc: "rstrip (s @ [c]) c = rstrip s c"
  by (simp add: rstrip_def)

lemma rstrip_id: "s \<noteq> [] \<Longrightarrow> last s \<noteq> c \<Longrightarrow> rstrip s c = s"
  by (cases s rule: rev_cases) (auto simp: rstrip_def)

lemma replicate_subset: "(s = replicate (length s) c) = (set s \<subseteq> {c})"
proof
  assume "s = replicate (length s) c"
  then have "set s \<subseteq> set (replicate (length s) c)" by simp
  then show "set s \<subseteq> {c}" by (auto split: if_splits)
next
  assume "set s \<subseteq> {c}"
  then show "s = replicate (length s) c"
    by (induction s) auto
qed

lemma dirname_endswith:
  assumes "endswith d sep"
  shows "dirname d = (if d = replicate (length d) sep then d else rstrip d sep)"
proof -
  from assms have "path_head d = d" by (simp add: endswith_def path_head_endswith)
  moreover from assms have "d \<noteq> []" by (simp add: endswith_def)
  ultimately show ?thesis by (simp add: dirname_head)
qed

lemma dirname_one_trailing:
  assumes "p \<noteq> []" "last p \<noteq> sep"
  shows "dirname (p @ [sep]) = p"
proof -
  have e: "endswith (p @ [sep]) sep" by (simp add: endswith_def)
  have "p @ [sep] \<noteq> replicate (length (p @ [sep])) sep"
  proof
    assume "p @ [sep] = replicate (length (p @ [sep])) sep"
    then have "set (p @ [sep]) \<subseteq> {sep}" by (simp only: replicate_subset)
    with assms show False by (metis Un_iff last_in_set set_append singletonD subsetD)
  qed
  with dirname_endswith [OF e] have "dirname (p @ [sep]) = rstrip (p @ [sep]) sep" by simp
  with assms show ?thesis by (simp add: rstrip_snoc rstrip_id)
qed

lemma dirname_component:
  assumes "d \<noteq> []" "\<not> endswith d sep"
  shows "\<exists>seps comp. d = dirname d @ seps @ comp \<and> comp \<noteq> [] \<and> sep \<notin> set comp
           \<and> set seps \<subseteq> {sep}"
proof -
  define comp where "comp = rev (takeWhile (\<lambda>x. x \<noteq> sep) (rev d))"
  have split: "d = path_head d @ comp" unfolding comp_def by (rule path_head_split)
  have nosep: "sep \<notin> set comp" unfolding comp_def by (auto dest: set_takeWhileD)
  from assms have "hd (rev d) \<noteq> sep" "rev d \<noteq> []" by (simp_all add: endswith_def hd_rev)
  then have "takeWhile (\<lambda>x. x \<noteq> sep) (rev d) \<noteq> []" by (cases "rev d") auto
  then have ne: "comp \<noteq> []" by (simp add: comp_def)
  show ?thesis
  proof (cases "path_head d \<noteq> [] \<and> path_head d \<noteq> replicate (length (path_head d)) sep")
    case True
    then have dn: "dirname d = rstrip (path_head d) sep" by (simp add: dirname_head)
    obtain k where "path_head d = rstrip (path_head d) sep @ replicate k sep"
      using rstrip_split by blast
    with split dn have "d = dirname d @ replicate k sep @ comp" by (metis append_assoc)
    moreover have "set (replicate k sep) \<subseteq> {sep}" by auto
    ultimately show ?thesis using ne nosep by blast
  next
    case False
    then have "dirname d = path_head d" by (auto simp: dirname_head)
    with split have "d = dirname d @ [] @ comp" by simp
    then show ?thesis using ne nosep by (metis empty_set empty_subsetI)
  qed
qed

lemma dirname_tail:
  "dirname d = [] \<or> last (dirname d) \<noteq> sep \<or> set (dirname d) \<subseteq> {sep}"
proof (cases "path_head d \<noteq> [] \<and> path_head d \<noteq> replicate (length (path_head d)) sep")
  case True
  then have "dirname d = rstrip (path_head d) sep" by (simp add: dirname_head)
  then show ?thesis using rstrip_last [of "path_head d" sep] by auto
next
  case False
  then have "dirname d = path_head d"
    and "path_head d = [] \<or> path_head d = replicate (length (path_head d)) sep"
    by (auto simp: dirname_head)
  then show ?thesis by (metis replicate_subset)
qed

lemma path_head_append_nosep: "sep \<notin> set f \<Longrightarrow> path_head (p @ f) = path_head p"
proof -
  assume "sep \<notin> set f"
  then have "dropWhile (\<lambda>x. x \<noteq> sep) (rev f @ rev p) = dropWhile (\<lambda>x. x \<noteq> sep) (rev p)"
    by (intro dropWhile_append2) auto
  then show ?thesis by (simp add: path_head_def)
qed

lemma join_dir_file: "sep \<notin> set f \<Longrightarrow> join (d @ [sep]) f = d @ [sep] @ f"
  by (cases f) (auto simp: join_def startswith_def endswith_def)

lemma join_images:
  "d \<noteq> [] \<Longrightarrow> last d \<noteq> sep \<Longrightarrow> join d ''images'' = d @ [sep] @ ''images''"
  by (simp add: join_def startswith_def endswith_def sep_def)

text \<open>The directory of a file \<open>f\<close> that lies in the directory \<open>d\<close> is \<open>d\<close>.\<close>

lemma dirname_file_in_dir:
  assumes "d \<noteq> []" "last d \<noteq> sep" "sep \<notin> set f"
  shows "dirname (d @ [sep] @ f) = d"
proof -
  have "path_head (d @ [sep] @ f) = path_head ((d @ [sep]) @ f)" by simp
  also have "\<dots> = path_head (d @ [sep])" using assms(3) by (rule path_head_append_nosep)
  also have "\<dots> = d @ [sep]" by (simp add: path_head_endswith)
  finally have h: "path_head (d @ [sep] @ f) = d @ [sep]" .
  have "d @ [sep] \<noteq> replicate (length (d @ [sep])) sep"
  proof
    assume "d @ [sep] = replicate (length (d @ [sep])) sep"
    then have "set (d @ [sep]) \<subseteq> {sep}" by (simp only: replicate_subset)
    with assms(1,2) show False by (metis Un_iff last_in_set set_append singletonD subsetD)
  qed
  with h have "dirname (d @ [sep] @ f) = rstrip (d @ [sep]) sep"
    by (simp add: dirname_head)
  with assms(1,2) show ?thesis by (simp add: rstrip_snoc rstrip_id)
qed

lemma path_head_last: "path_head p = [] \<or> last (path_head p) = sep"
proof (cases "dropWhile (\<lambda>x. x \<noteq> sep) (rev p) = []")
  case True
  then show ?thesis by (simp add: path_head_def)
next
  case False
  then have "hd (dropWhile (\<lambda>x. x \<noteq> sep) (rev p)) = sep"
    using hd_dropWhile [of "\<lambda>x. x \<noteq> sep" "rev p"] by simp
  with False show ?thesis by (simp add: path_head_def last_rev)
qed

lemma dirname_exact:
  "\<exists>head comp k. d = head @ comp \<and> sep \<notin> set comp \<and> (head = [] \<or> last head = sep)
      \<and> head = dirname d @ replicate k sep
      \<and> (if head = replicate (length head) sep then dirname d = head
          else dirname d \<noteq> [] \<and> last (dirname d) \<noteq> sep)"
proof -
  define comp where "comp = rev (takeWhile (\<lambda>x. x \<noteq> sep) (rev d))"
  have split: "d = path_head d @ comp" unfolding comp_def by (rule path_head_split)
  have nosep: "sep \<notin> set comp" unfolding comp_def by (auto dest: set_takeWhileD)
  have hl: "path_head d = [] \<or> last (path_head d) = sep" by (rule path_head_last)
  show ?thesis
  proof (cases "path_head d = replicate (length (path_head d)) sep")
    case True
    then have dn: "dirname d = path_head d" by (simp add: dirname_head)
    then have "path_head d = dirname d @ replicate 0 sep" by simp
    with split nosep hl True dn show ?thesis by metis
  next
    case False
    then have ne: "path_head d \<noteq> []" by auto
    with False have dn: "dirname d = rstrip (path_head d) sep" by (simp add: dirname_head)
    obtain k where k: "path_head d = rstrip (path_head d) sep @ replicate k sep"
      using rstrip_split by blast
    have "rstrip (path_head d) sep \<noteq> []"
    proof
      assume "rstrip (path_head d) sep = []"
      with k have "path_head d = replicate k sep" by simp
      then have "path_head d = replicate (length (path_head d)) sep" by (metis length_replicate)
      with False show False by simp
    qed
    then have "dirname d \<noteq> [] \<and> last (dirname d) \<noteq> sep"
      using rstrip_last [of "path_head d" sep] dn by simp
    moreover from k dn have "path_head d = dirname d @ replicate k sep" by simp
    ultimately show ?thesis using split nosep hl False by metis
  qed
qed


lemma path_head_unique:
  assumes "d = head @ base" "sep \<notin> set base" "head = [] \<or> last head = sep"
  shows "head = path_head d"
proof -
  from assms(1,2) have "path_head d = path_head head" by (simp add: path_head_append_nosep)
  also have "path_head head = head"
  proof (cases "head = []")
    case True
    then show ?thesis by (simp add: path_head_def)
  next
    case False
    with assms(3) show ?thesis by (intro path_head_endswith) simp_all
  qed
  finally show ?thesis by simp
qed

lemma rstrip_replicate: "rstrip (r @ replicate k c) c = rstrip r c"
proof (induction k)
  case 0
  show ?case by simp
next
  case (Suc k)
  have "r @ replicate (Suc k) c = (r @ replicate k c) @ [c]"
    by (simp add: replicate_append_same)
  with Suc show ?case by (simp only: rstrip_snoc)
qed

lemma dirname_unique:
  assumes "d = head @ base" "sep \<notin> set base" "head = [] \<or> last head = sep"
    and "head = r @ replicate k sep"
    and "if head = replicate (length head) sep then r = head else r \<noteq> [] \<and> last r \<noteq> sep"
  shows "dirname d = r"
proof -
  have h: "path_head d = head" using path_head_unique [OF assms(1-3)] by simp
  show ?thesis
  proof (cases "head = replicate (length head) sep")
    case True
    with assms(5) h show ?thesis by (simp add: dirname_head)
  next
    case False
    with assms(5) have r: "r \<noteq> []" "last r \<noteq> sep" by simp_all
    from False have "head \<noteq> []" by auto
    with False h have "dirname d = rstrip head sep" by (simp add: dirname_head)
    also from assms(4) have "\<dots> = rstrip r sep" by (simp add: rstrip_replicate)
    also from r have "\<dots> = r" by (rule rstrip_id)
    finally show ?thesis .
  qed
qed

section \<open>Facts about the transformation chain\<close>

lemma effective_transform_append:
  "effective_transform (Ts @ [T]) p = apply_transform T (effective_transform Ts p)"
  by (induction Ts arbitrary: p) simp_all

lemma parse_files_Inr:
  "parse_files parse_file fs = Inr Ts \<Longrightarrow> Ts = map (\<lambda>f. the (parse_file (snd f))) fs"
  by (induction fs arbitrary: Ts) (auto split: option.splits sum.splits)

lemma parse_files_Inl:
  "parse_files parse_file fs = Inl e \<Longrightarrow>
     \<exists>f \<in> set fs. parse_file (snd f) = None \<and> e = MalformedFile (fst f)"
  by (induction fs) (auto split: option.splits sum.splits)

text \<open>
  Two listings of the same files, each file name occurring once, sort to the same
  sequence: the order in which the file system lists a directory does not matter.
\<close>

lemma sort_key_listing_order:
  assumes "set xs = set ys" "distinct (map f xs)" "distinct (map f ys)"
  shows "sort_key f xs = sort_key f ys"
proof (rule map_sorted_distinct_set_unique [where f = f])
  from assms(2) have inj: "inj_on f (set xs)" by (simp add: distinct_map)
  with assms(1) show "inj_on f (set (sort_key f xs) \<union> set (sort_key f ys))" by simp
  show "sorted (map f (sort_key f xs))" "sorted (map f (sort_key f ys))" by simp_all
  from assms(2) show "distinct (map f (sort_key f xs))" by (simp add: distinct_map)
  from assms(3) show "distinct (map f (sort_key f ys))" by (simp add: distinct_map)
  from assms(1) show "set (sort_key f xs) = set (sort_key f ys)" by simp
qed

lemma filter_listing_order:
  assumes "set xs = set ys" "distinct (map f xs)" "distinct (map f ys)"
  shows "sort_key f (filter P xs) = sort_key f (filter P ys)"
proof (rule sort_key_listing_order)
  from assms(1) show "set (filter P xs) = set (filter P ys)" by simp
  from assms(2) show "distinct (map f (filter P xs))" by (simp add: distinct_map_filter)
  from assms(3) show "distinct (map f (filter P ys))" by (simp add: distinct_map_filter)
qed

lemma parse_two_files:
  assumes "name_A < name_B" "matches name_A" "matches name_B"
    and "parse_file cA = Some A" "parse_file cB = Some B"
  shows "parse_transformation_folder matches parse_file (Some [(name_A, cA), (name_B, cB)])
           = Inr [A, B]"
    and "parse_transformation_folder matches parse_file (Some [(name_B, cB), (name_A, cA)])
           = Inr [A, B]"
  using assms by (auto simp: parse_transformation_folder_def)

section \<open>Facts about image resolution\<close>

lemma resolve_all_cameras:
  "fst (resolve_all rd dir dw dh cs) = map (\<lambda>c. fst (resolve_camera rd dir dw dh c)) cs"
  by (induction cs) (auto simp: Let_def split: prod.splits)

lemma resolve_all_warnings:
  "fst (snd (resolve_all rd dir dw dh cs)) =
     concat (map (\<lambda>c. fst (snd (resolve_camera rd dir dw dh c))) cs)"
  by (induction cs) (auto simp: Let_def split: prod.splits)

lemma resolve_all_opened:
  "snd (snd (resolve_all rd dir dw dh cs)) =
     concat (map (\<lambda>c. snd (snd (resolve_camera rd dir dw dh c))) cs)"
  by (induction cs) (auto simp: Let_def split: prod.splits)

lemma resolve_camera_unresolved:
  "unresolved rd dir c \<Longrightarrow>
     resolve_camera rd dir dw dh c =
       (c\<lparr>width := Some dw, height := Some dh\<rparr>, [UnresolvedImage (camera_id c)],
        [join dir (image_path c)])"
  by (simp add: unresolved_def resolve_camera_def)

lemma resolve_camera_resolved:
  "\<not> unresolved rd dir c \<Longrightarrow> fst (snd (resolve_camera rd dir dw dh c)) = []"
  by (auto simp: unresolved_def resolve_camera_def Let_def split: option.splits)

lemma resolve_camera_read:
  "dimensions_unset c \<Longrightarrow> rd (join dir (image_path c)) = Some (w, h) \<Longrightarrow>
     fst (resolve_camera rd dir dw dh c) = c\<lparr>width := Some w, height := Some h\<rparr>"
  by (simp add: resolve_camera_def)

lemma resolve_camera_opened:
  "snd (snd (resolve_camera rd dir dw dh c)) =
     (if dimensions_unset c then [join dir (image_path c)] else [])"
  by (auto simp: resolve_camera_def Let_def split: option.splits)

lemma resolve_camera_id: "camera_id (fst (resolve_camera rd dir dw dh c)) = camera_id c"
  by (auto simp: resolve_camera_def Let_def split: option.splits)

lemma resolve_all_warnings_filter:
  "fst (snd (resolve_all rd dir dw dh cs)) =
     map (\<lambda>c. UnresolvedImage (camera_id c)) (filter (unresolved rd dir) cs)"
proof -
  have "concat (map (\<lambda>c. fst (snd (resolve_camera rd dir dw dh c))) cs) =
      map (\<lambda>c. UnresolvedImage (camera_id c)) (filter (unresolved rd dir) cs)"
  proof (induction cs)
    case Nil
    show ?case by simp
  next
    case (Cons c cs)
    show ?case
    proof (cases "unresolved rd dir c")
      case True
      with Cons show ?thesis by (simp add: resolve_camera_unresolved)
    next
      case False
      with Cons show ?thesis by (simp add: resolve_camera_resolved)
    qed
  qed
  then show ?thesis by (simp add: resolve_all_warnings)
qed

lemma resolve_all_opened_filter:
  "snd (snd (resolve_all rd dir dw dh cs)) =
     map (\<lambda>c. join dir (image_path c)) (filter dimensions_unset cs)"
proof -
  have "concat (map (\<lambda>c. snd (snd (resolve_camera rd dir dw dh c))) cs) =
      map (\<lambda>c. join dir (image_path c)) (filter dimensions_unset cs)"
    by (induction cs) (simp_all add: resolve_camera_opened)
  then show ?thesis by (simp add: resolve_all_opened)
qed

text \<open>
  The NVM import, unfolded: it fails only where the parser of the NVM file or the import
  of the points fails, and otherwise holds what image resolution returned.
\<close>

lemma ImportNVM_import_unfold:
  "ImportNVM_import isdir rd parse_nvm_file import_points self =
     (let path = fst (ImportNVM_prepare isdir self);
          self' = snd (ImportNVM_prepare isdir self);
          r = resolve_all rd (path_to_images self') (default_width self') (default_height self')
      in case parse_nvm_file path self' of
           Inl e \<Rightarrow> Inl e
         | Inr (cameras, points) \<Rightarrow>
             (case import_points self' points of
                Inl e \<Rightarrow> Inl e
              | Inr points_done \<Rightarrow>
                  Inr (\<lparr>scene_cameras = fst (r cameras),
                        all_resolved = (fst (snd (r cameras)) = []),
                        reported = fst (snd (r cameras)),
                        files_opened = snd (snd (r cameras))\<rparr>, points_done)))"
  by (simp add: ImportNVM_import_def ImportNVM_execute_def import_photogrammetry_cameras_def
      ImportNVM_enhance_camera_with_images_def resolve_images_def Let_def
      split: prod.splits sum.splits)

lemma ImportNVM_prepare_defaults:
  "default_width (snd (ImportNVM_prepare isdir self)) = default_width self"
  "default_height (snd (ImportNVM_prepare isdir self)) = default_height self"
  by (simp_all add: ImportNVM_prepare_def Let_def)

section \<open>The user-supplied image directory\<close>

text \<open>
  C9. For every reconstruction path and every non-empty image-directory string,
  \<open>get_default_image_path\<close> returns the supplied string unchanged and asks the file system
  nothing; \<^verbatim>\<open>os.path.isdir\<close> is called exactly when the supplied string is empty. The same
  holds in each of the four operators that call it: a non-empty \<open>path_to_images\<close> is still
  the operator's \<open>path_to_images\<close> after the call.
\<close>

theorem get_default_image_path_override:
  "(image_dp \<noteq> [] \<longrightarrow> get_default_image_path isdir reconstruction_fp image_dp = (image_dp, []))
   \<and> (snd (get_default_image_path isdir reconstruction_fp image_dp) \<noteq> [] \<longleftrightarrow> image_dp = [])
   \<and> (path_to_images self \<noteq> [] \<longrightarrow>
        path_to_images (snd (ImportColmap_prepare isdir self)) = path_to_images self
      \<and> path_to_images (snd (ImportNVM_prepare isdir self)) = path_to_images self
      \<and> path_to_images (snd (ImportOpenMVG_prepare isdir self)) = path_to_images self
      \<and> path_to_images (snd (ImportMeshroom_prepare isdir self)) = path_to_images self)"
  by (simp add: get_default_image_path_def ImportColmap_prepare_def ImportNVM_prepare_def
      ImportOpenMVG_prepare_def ImportMeshroom_prepare_def Let_def)

theorem get_default_image_path_override_witness:
  "get_default_image_path (\<lambda>p. True) ''/rec/model.nvm'' ''/photos'' = (''/photos'', [])
   \<and> snd (get_default_image_path (\<lambda>p. True) ''/rec/model.nvm'' '''') = [''/rec/images'']
   \<and> path_to_images (snd (ImportNVM_prepare (\<lambda>p. True)
        \<lparr>directory = ''/rec/'', filepath = ''model.nvm'', path_to_images = ''/photos'',
         default_width = 0, default_height = 0, path_to_transformations = ''''\<rparr>)) = ''/photos''"
  using get_default_image_path_override [of "''/photos''" "\<lambda>p. True" "''/rec/model.nvm''"
      "\<lparr>directory = ''/rec/'', filepath = ''model.nvm'', path_to_images = ''/photos'',
         default_width = 0, default_height = 0, path_to_transformations = ''''\<rparr>"]
  by (simp add: get_default_image_path_def dirname_def join_def sep_def rstrip_def
      startswith_def endswith_def Let_def)

section \<open>The image directory of an NVM import\<close>

text \<open>
  C1, as stated: with no image directory supplied, the reconstruction file's own directory
  takes precedence over its \<open>images\<close> subdirectory. It does not: below, both
  \<open>/rec\<close> and \<open>/rec/images\<close> are directories, and the import of \<open>/rec/model.nvm\<close> with an
  empty \<open>path_to_images\<close> resolves images against \<open>/rec/images\<close>, not against \<open>/rec\<close>, the
  directory of the reconstruction file.
\<close>

theorem ImportNVM_fallback_order_counterexample:
  "fst (ImportNVM_prepare (\<lambda>p. p = ''/rec'' \<or> p = ''/rec/images'')
        \<lparr>directory = ''/rec/'', filepath = ''model.nvm'', path_to_images = '''',
         default_width = 0, default_height = 0, path_to_transformations = ''''\<rparr>)
     = ''/rec/model.nvm''
   \<and> dirname ''/rec/model.nvm'' = ''/rec''
   \<and> path_to_images (snd (ImportNVM_prepare (\<lambda>p. p = ''/rec'' \<or> p = ''/rec/images'')
        \<lparr>directory = ''/rec/'', filepath = ''model.nvm'', path_to_images = '''',
         default_width = 0, default_height = 0, path_to_transformations = ''''\<rparr>))
     = ''/rec/images''
   \<and> ''/rec/images'' \<noteq> ''/rec''"
  by (simp add: ImportNVM_prepare_def get_default_image_path_def dirname_def join_def sep_def
      rstrip_def startswith_def endswith_def Let_def)

text \<open>
  C1, amended. For every camera whose width or height is unset during NVM image
  resolution, the resolver attempts to open the referenced image file by resolving it
  against the supplied image directory; when no image directory is supplied (the empty
  string), it falls back first to the conventional \<open>images\<close> subdirectory of the
  reconstruction file's directory, if that is a directory, and only then to the
  reconstruction file's own directory: the \<open>images\<close> subdirectory takes precedence.

  Below, the first conjunct is the directory that \<^verbatim>\<open>ImportNVM.execute\<close> leaves in
  \<open>path_to_images\<close>; the second is the call of the handler with it; the third names the
  two candidate directories for a reconstruction file \<open>f\<close> selected in the directory
  \<open>d/\<close>, which are \<open>d/images\<close> and \<open>d\<close>. The last is the import as a whole, from
  \<open>execute\<close> through the camera import to the resolver: when the NVM file parses, the files
  opened are, in camera order, the image files of exactly the cameras whose width or
  height is unset, each resolved against that directory, and a camera whose file can be
  read there gets the dimensions read.
\<close>

theorem ImportNVM_image_directory:
  "path_to_images (snd (ImportNVM_prepare isdir self)) =
     (let path = join (directory self) (filepath self);
          same_dp = dirname path;
          sub_dp = join same_dp ''images''
      in if path_to_images self \<noteq> [] then path_to_images self
         else if isdir sub_dp then sub_dp
         else same_dp)
   \<and> ImportNVM_enhance_camera_with_images parse_camera_image_files
        (snd (ImportNVM_prepare isdir self)) cameras' =
       parse_camera_image_files cameras' (path_to_images (snd (ImportNVM_prepare isdir self)))
         (default_width self) (default_height self) (snd (ImportNVM_prepare isdir self))
   \<and> (\<forall>d f. d \<noteq> [] \<and> last d \<noteq> sep \<and> sep \<notin> set f \<and> directory self = d @ [sep]
          \<and> filepath self = f \<and> path_to_images self = [] \<longrightarrow>
        fst (ImportNVM_prepare isdir self) = d @ [sep] @ f
      \<and> path_to_images (snd (ImportNVM_prepare isdir self)) =
          (if isdir (d @ [sep] @ ''images'') then d @ [sep] @ ''images'' else d))
   \<and> (parse_nvm_file (fst (ImportNVM_prepare isdir self)) (snd (ImportNVM_prepare isdir self))
          = Inr (cameras, points)
        \<and> import_points (snd (ImportNVM_prepare isdir self)) points = Inr points_done \<longrightarrow>
        (\<exists>res. ImportNVM_import isdir read_size parse_nvm_file import_points self
                  = Inr (res, points_done)
           \<and> files_opened res =
               map (\<lambda>c. join (path_to_images (snd (ImportNVM_prepare isdir self))) (image_path c))
                 (filter dimensions_unset cameras)
           \<and> length (scene_cameras res) = length cameras
           \<and> (\<forall>i < length cameras. \<forall>w h.
                 dimensions_unset (cameras ! i)
                 \<and> read_size (join (path_to_images (snd (ImportNVM_prepare isdir self)))
                       (image_path (cameras ! i))) = Some (w, h) \<longrightarrow>
                 scene_cameras res ! i = (cameras ! i)\<lparr>width := Some w, height := Some h\<rparr>)))"
proof (intro conjI allI impI)
  show "path_to_images (snd (ImportNVM_prepare isdir self)) =
     (let path = join (directory self) (filepath self);
          same_dp = dirname path;
          sub_dp = join same_dp ''images''
      in if path_to_images self \<noteq> [] then path_to_images self
         else if isdir sub_dp then sub_dp
         else same_dp)"
    by (simp add: ImportNVM_prepare_def get_default_image_path_def Let_def)
next
  show "ImportNVM_enhance_camera_with_images parse_camera_image_files
        (snd (ImportNVM_prepare isdir self)) cameras' =
       parse_camera_image_files cameras' (path_to_images (snd (ImportNVM_prepare isdir self)))
         (default_width self) (default_height self) (snd (ImportNVM_prepare isdir self))"
    by (simp add: ImportNVM_prepare_def ImportNVM_enhance_camera_with_images_def Let_def)
next
  fix d f
  assume a: "d \<noteq> [] \<and> last d \<noteq> sep \<and> sep \<notin> set f \<and> directory self = d @ [sep]
        \<and> filepath self = f \<and> path_to_images self = []"
  then have p: "join (directory self) (filepath self) = d @ [sep] @ f"
    by (simp add: join_dir_file)
  from a have dn: "dirname (d @ [sep] @ f) = d" by (intro dirname_file_in_dir) simp_all
  from a have im: "join d ''images'' = d @ [sep] @ ''images''" by (intro join_images) simp_all
  from p show "fst (ImportNVM_prepare isdir self) = d @ [sep] @ f"
    by (simp add: ImportNVM_prepare_def Let_def)
  from a p dn im show "path_to_images (snd (ImportNVM_prepare isdir self)) =
          (if isdir (d @ [sep] @ ''images'') then d @ [sep] @ ''images'' else d)"
    by (simp add: ImportNVM_prepare_def get_default_image_path_def Let_def)
next
  let ?self = "snd (ImportNVM_prepare isdir self)"
  let ?dir = "path_to_images ?self"
  let ?r = "resolve_all read_size ?dir (default_width ?self) (default_height ?self) cameras"
  let ?res = "\<lparr>scene_cameras = fst ?r, all_resolved = (fst (snd ?r) = []),
      reported = fst (snd ?r), files_opened = snd (snd ?r)\<rparr>"
  assume a: "parse_nvm_file (fst (ImportNVM_prepare isdir self)) ?self = Inr (cameras, points)
        \<and> import_points ?self points = Inr points_done"
  then have run: "ImportNVM_import isdir read_size parse_nvm_file import_points self
      = Inr (?res, points_done)"
    by (simp add: ImportNVM_import_unfold Let_def)
  have opened: "files_opened ?res =
      map (\<lambda>c. join ?dir (image_path c)) (filter dimensions_unset cameras)"
    by (simp add: resolve_all_opened_filter)
  have len: "length (scene_cameras ?res) = length cameras"
    by (simp add: resolve_all_cameras)
  have sizes: "\<forall>i < length cameras. \<forall>w h.
      dimensions_unset (cameras ! i)
      \<and> read_size (join ?dir (image_path (cameras ! i))) = Some (w, h) \<longrightarrow>
      scene_cameras ?res ! i = (cameras ! i)\<lparr>width := Some w, height := Some h\<rparr>"
    by (simp add: resolve_all_cameras resolve_camera_read)
  from run opened len sizes
  show "\<exists>res. ImportNVM_import isdir read_size parse_nvm_file import_points self
                  = Inr (res, points_done)
           \<and> files_opened res =
               map (\<lambda>c. join ?dir (image_path c)) (filter dimensions_unset cameras)
           \<and> length (scene_cameras res) = length cameras
           \<and> (\<forall>i < length cameras. \<forall>w h.
                 dimensions_unset (cameras ! i)
                 \<and> read_size (join ?dir (image_path (cameras ! i))) = Some (w, h) \<longrightarrow>
                 scene_cameras res ! i = (cameras ! i)\<lparr>width := Some w, height := Some h\<rparr>)"
    by blast
qed

theorem ImportNVM_image_directory_witness:
  "path_to_images (snd (ImportNVM_prepare (\<lambda>p. False)
        \<lparr>directory = ''/rec/'', filepath = ''model.nvm'', path_to_images = '''',
         default_width = 100, default_height = 50, path_to_transformations = ''''\<rparr>))
     = ''/rec''
   \<and> path_to_images (snd (ImportNVM_prepare (\<lambda>p. p = ''/rec/images'')
        \<lparr>directory = ''/rec/'', filepath = ''model.nvm'', path_to_images = '''',
         default_width = 100, default_height = 50, path_to_transformations = ''''\<rparr>))
     = ''/rec/images''
   \<and> (\<exists>res. ImportNVM_import (\<lambda>p. p = ''/rec/images'')
          (\<lambda>p. if p = ''/rec/images/a.jpg'' then Some (640, 480) else None)
          (\<lambda>path op. Inr ([camera_without_size 1 ''a.jpg''], [7 :: nat]))
          (\<lambda>op pts. Inr pts)
          \<lparr>directory = ''/rec/'', filepath = ''model.nvm'', path_to_images = '''',
           default_width = 100, default_height = 50, path_to_transformations = ''''\<rparr>
        = Inr (res, [7])
      \<and> files_opened res = [''/rec/images/a.jpg'']
      \<and> scene_cameras res =
          [(camera_without_size 1 ''a.jpg'')\<lparr>width := Some 640, height := Some 480\<rparr>])"
proof -
  let ?self = "\<lparr>directory = ''/rec/'', filepath = ''model.nvm'', path_to_images = '''',
         default_width = 100, default_height = 50, path_to_transformations = ''''\<rparr>"
  let ?isdir = "\<lambda>p. p = ''/rec/images''"
  let ?read = "\<lambda>p. if p = ''/rec/images/a.jpg'' then Some (640 :: int, 480 :: int) else None"
  let ?parse = "\<lambda>(path :: string) (op :: import_op).
      (Inr ([camera_without_size 1 ''a.jpg''], [7 :: nat])
        :: import_error + Camera list \<times> nat list)"
  let ?points = "\<lambda>(op :: import_op) (pts :: nat list). (Inr pts :: import_error + nat list)"
  have h: "''/rec'' \<noteq> [] \<and> last ''/rec'' \<noteq> sep \<and> sep \<notin> set ''model.nvm''
      \<and> directory ?self = ''/rec'' @ [sep] \<and> filepath ?self = ''model.nvm''
      \<and> path_to_images ?self = []"
    by (simp add: sep_def)
  have none: "path_to_images (snd (ImportNVM_prepare (\<lambda>p. False) ?self)) = ''/rec''"
    using ImportNVM_image_directory [of "\<lambda>p. False" ?self,
        THEN conjunct2, THEN conjunct2, THEN conjunct1] h
    by (simp add: sep_def)
  have sub: "path_to_images (snd (ImportNVM_prepare ?isdir ?self)) = ''/rec/images''"
    using ImportNVM_image_directory [of ?isdir ?self,
        THEN conjunct2, THEN conjunct2, THEN conjunct1] h
    by (simp add: sep_def)
  have "?parse (fst (ImportNVM_prepare ?isdir ?self)) (snd (ImportNVM_prepare ?isdir ?self))
          = Inr ([camera_without_size 1 ''a.jpg''], [7])
        \<and> ?points (snd (ImportNVM_prepare ?isdir ?self)) [7] = Inr [7]"
    by simp
  with ImportNVM_image_directory [where isdir = ?isdir and self = ?self
      and parse_nvm_file = ?parse and import_points = ?points and read_size = ?read
      and cameras = "[camera_without_size 1 ''a.jpg'']" and points = "[7]"
      and points_done = "[7]", THEN conjunct2, THEN conjunct2, THEN conjunct2]
  obtain res where res: "ImportNVM_import ?isdir ?read ?parse ?points ?self = Inr (res, [7])"
      "files_opened res =
         map (\<lambda>c. join (path_to_images (snd (ImportNVM_prepare ?isdir ?self))) (image_path c))
           (filter dimensions_unset [camera_without_size 1 ''a.jpg''])"
      "length (scene_cameras res) = length [camera_without_size 1 ''a.jpg'']"
      "\<forall>i < length [camera_without_size 1 ''a.jpg'']. \<forall>w h.
         dimensions_unset ([camera_without_size 1 ''a.jpg''] ! i)
         \<and> ?read (join (path_to_images (snd (ImportNVM_prepare ?isdir ?self)))
               (image_path ([camera_without_size 1 ''a.jpg''] ! i))) = Some (w, h) \<longrightarrow>
         scene_cameras res ! i =
           ([camera_without_size 1 ''a.jpg''] ! i)\<lparr>width := Some w, height := Some h\<rparr>"
    by blast
  have unset: "dimensions_unset (camera_without_size 1 ''a.jpg'')"
    by (simp add: dimensions_unset_def camera_without_size_def)
  have fp: "join ''/rec/images'' (image_path (camera_without_size 1 ''a.jpg''))
      = ''/rec/images/a.jpg''"
    by (simp add: join_def startswith_def endswith_def sep_def camera_without_size_def)
  from res(2) unset fp sub have opened: "files_opened res = [''/rec/images/a.jpg'']"
    by simp
  from res(4) unset fp sub
  have "scene_cameras res ! 0 =
      (camera_without_size 1 ''a.jpg'')\<lparr>width := Some 640, height := Some 480\<rparr>"
    by simp
  with res(3) have cams: "scene_cameras res =
      [(camera_without_size 1 ''a.jpg'')\<lparr>width := Some 640, height := Some 480\<rparr>]"
    by (cases "scene_cameras res") simp_all
  from none sub res(1) opened cams show ?thesis by blast
qed

section \<open>The COLMAP model folder\<close>

text \<open>
  C10, as stated: for every directory string that ends in a separator, only the trailing
  separator is removed. For the root directory \<open>/\<close> nothing is removed, and for \<open>/data//\<close>
  two characters are.
\<close>

theorem ImportColmap_path_counterexample:
  "endswith ''/'' sep
   \<and> ImportColmap_path \<lparr>directory = ''/'', filepath = '''', path_to_images = '''',
         default_width = 0, default_height = 0, path_to_transformations = ''''\<rparr> = ''/''
   \<and> butlast ''/'' = ''''
   \<and> endswith ''/data//'' sep
   \<and> ImportColmap_path \<lparr>directory = ''/data//'', filepath = '''', path_to_images = '''',
         default_width = 0, default_height = 0, path_to_transformations = ''''\<rparr> = ''/data''
   \<and> butlast ''/data//'' = ''/data/''"
  by (simp add: ImportColmap_path_def dirname_def sep_def rstrip_def endswith_def Let_def)

text \<open>
  C10, amended. \<^verbatim>\<open>ImportColmap.execute\<close> applies \<^verbatim>\<open>os.path.dirname\<close> to the directory string,
  and the result is the path handed to the COLMAP parser. For a directory string that ends
  in a separator, the whole trailing run of separators is removed, unless the string
  consists of separators only, which is left as it is; when the string ends in exactly one
  separator after another character, exactly that separator is removed. For a directory
  string that does not end in a separator, the last path component is stripped and the
  parent directory is what gets parsed.

  The second conjunct below says exactly which string the result is. The directory string
  splits in one way into a \<open>head\<close>, empty or ending in a separator, and a last component
  \<open>base\<close> without separator (empty when the string is empty or ends in a separator). The
  result is the head without its trailing separators, and the whole head when the head
  consists of separators only; no other string fits the description.
\<close>

theorem ImportColmap_path_dirname:
  "fst (ImportColmap_prepare isdir self) = ImportColmap_path self
   \<and> (\<forall>r. ImportColmap_path self = r \<longleftrightarrow>
        (\<exists>head base k. directory self = head @ base \<and> sep \<notin> set base
            \<and> (head = [] \<or> last head = sep)
            \<and> head = r @ replicate k sep
            \<and> (if head = replicate (length head) sep then r = head
                else r \<noteq> [] \<and> last r \<noteq> sep)))
   \<and> (endswith (directory self) sep \<longrightarrow>
        ImportColmap_path self =
          (if directory self = replicate (length (directory self)) sep then directory self
           else rstrip (directory self) sep)
        \<and> (\<exists>k. directory self = ImportColmap_path self @ replicate k sep))
   \<and> (\<forall>p. p \<noteq> [] \<and> last p \<noteq> sep \<and> directory self = p @ [sep] \<longrightarrow>
        ImportColmap_path self = p)
   \<and> (\<not> endswith (directory self) sep \<longrightarrow>
        (\<exists>head base k. directory self = head @ base \<and> sep \<notin> set base
            \<and> (head = [] \<or> last head = sep)
            \<and> (directory self \<noteq> [] \<longrightarrow> base \<noteq> [])
            \<and> head = ImportColmap_path self @ replicate k sep
            \<and> (if head = replicate (length head) sep then ImportColmap_path self = head
                else ImportColmap_path self \<noteq> [] \<and> last (ImportColmap_path self) \<noteq> sep)))
   \<and> (directory self = [] \<longrightarrow> ImportColmap_path self = [])"
proof (intro conjI impI allI)
  show "fst (ImportColmap_prepare isdir self) = ImportColmap_path self"
    by (simp add: ImportColmap_prepare_def Let_def)
next
  fix r
  show "ImportColmap_path self = r \<longleftrightarrow>
        (\<exists>head base k. directory self = head @ base \<and> sep \<notin> set base
            \<and> (head = [] \<or> last head = sep)
            \<and> head = r @ replicate k sep
            \<and> (if head = replicate (length head) sep then r = head
                else r \<noteq> [] \<and> last r \<noteq> sep))"
  proof
    assume "ImportColmap_path self = r"
    then have dn: "dirname (directory self) = r" by (simp add: ImportColmap_path_def)
    obtain head base k where "directory self = head @ base" "sep \<notin> set base"
        "head = [] \<or> last head = sep" "head = dirname (directory self) @ replicate k sep"
        "if head = replicate (length head) sep then dirname (directory self) = head
         else dirname (directory self) \<noteq> [] \<and> last (dirname (directory self)) \<noteq> sep"
      using dirname_exact [of "directory self"] by blast
    then show "\<exists>head base k. directory self = head @ base \<and> sep \<notin> set base
            \<and> (head = [] \<or> last head = sep)
            \<and> head = r @ replicate k sep
            \<and> (if head = replicate (length head) sep then r = head
                else r \<noteq> [] \<and> last r \<noteq> sep)"
      unfolding dn by blast
  next
    assume "\<exists>head base k. directory self = head @ base \<and> sep \<notin> set base
            \<and> (head = [] \<or> last head = sep)
            \<and> head = r @ replicate k sep
            \<and> (if head = replicate (length head) sep then r = head
                else r \<noteq> [] \<and> last r \<noteq> sep)"
    then obtain head base k where "directory self = head @ base" "sep \<notin> set base"
        "head = [] \<or> last head = sep" "head = r @ replicate k sep"
        "if head = replicate (length head) sep then r = head else r \<noteq> [] \<and> last r \<noteq> sep"
      by blast
    then have "dirname (directory self) = r" by (rule dirname_unique)
    then show "ImportColmap_path self = r" by (simp add: ImportColmap_path_def)
  qed
next
  assume "endswith (directory self) sep"
  then show "ImportColmap_path self =
      (if directory self = replicate (length (directory self)) sep then directory self
       else rstrip (directory self) sep)"
    unfolding ImportColmap_path_def by (rule dirname_endswith)
next
  assume e: "endswith (directory self) sep"
  obtain head base k where s: "directory self = head @ base" "sep \<notin> set base"
      and h: "head = dirname (directory self) @ replicate k sep"
    using dirname_exact [of "directory self"] by blast
  have "base = []"
  proof (rule ccontr)
    assume "base \<noteq> []"
    with s(1) have "last (directory self) = last base" by simp
    with e have "last base = sep" by (simp add: endswith_def)
    with \<open>base \<noteq> []\<close> s(2) show False using last_in_set by metis
  qed
  with s(1) h have "directory self = ImportColmap_path self @ replicate k sep"
    by (simp add: ImportColmap_path_def)
  then show "\<exists>k. directory self = ImportColmap_path self @ replicate k sep" ..
next
  fix p
  assume "p \<noteq> [] \<and> last p \<noteq> sep \<and> directory self = p @ [sep]"
  then show "ImportColmap_path self = p"
    by (simp add: ImportColmap_path_def dirname_one_trailing)
next
  assume n: "\<not> endswith (directory self) sep"
  obtain head base k where s: "directory self = head @ base" "sep \<notin> set base"
      "head = [] \<or> last head = sep"
      and h: "head = dirname (directory self) @ replicate k sep"
        "if head = replicate (length head) sep then dirname (directory self) = head
         else dirname (directory self) \<noteq> [] \<and> last (dirname (directory self)) \<noteq> sep"
    using dirname_exact [of "directory self"] by blast
  have "directory self \<noteq> [] \<longrightarrow> base \<noteq> []"
  proof (intro impI notI)
    assume "directory self \<noteq> []" "base = []"
    with s(1,3) have "endswith (directory self) sep" by (auto simp: endswith_def)
    with n show False by simp
  qed
  with s h show "\<exists>head base k. directory self = head @ base \<and> sep \<notin> set base
            \<and> (head = [] \<or> last head = sep)
            \<and> (directory self \<noteq> [] \<longrightarrow> base \<noteq> [])
            \<and> head = ImportColmap_path self @ replicate k sep
            \<and> (if head = replicate (length head) sep then ImportColmap_path self = head
                else ImportColmap_path self \<noteq> [] \<and> last (ImportColmap_path self) \<noteq> sep)"
    unfolding ImportColmap_path_def by blast
next
  assume "directory self = []"
  then show "ImportColmap_path self = []"
    by (simp add: ImportColmap_path_def dirname_def Let_def)
qed

theorem ImportColmap_path_dirname_witness:
  "ImportColmap_path \<lparr>directory = ''/data/model/'', filepath = '''', path_to_images = '''',
       default_width = 0, default_height = 0, path_to_transformations = ''''\<rparr> = ''/data/model''
   \<and> ImportColmap_path \<lparr>directory = ''/data/model'', filepath = '''', path_to_images = '''',
       default_width = 0, default_height = 0, path_to_transformations = ''''\<rparr> = ''/data''
   \<and> ImportColmap_path \<lparr>directory = ''/model'', filepath = '''', path_to_images = '''',
       default_width = 0, default_height = 0, path_to_transformations = ''''\<rparr> = ''/''
   \<and> ImportColmap_path \<lparr>directory = '''', filepath = '''', path_to_images = '''',
       default_width = 0, default_height = 0, path_to_transformations = ''''\<rparr> = ''''"
proof -
  let ?a = "\<lparr>directory = ''/data/model/'', filepath = '''', path_to_images = '''',
       default_width = 0, default_height = 0, path_to_transformations = ''''\<rparr>"
  let ?b = "\<lparr>directory = ''/data/model'', filepath = '''', path_to_images = '''',
       default_width = 0, default_height = 0, path_to_transformations = ''''\<rparr>"
  let ?c = "\<lparr>directory = ''/model'', filepath = '''', path_to_images = '''',
       default_width = 0, default_height = 0, path_to_transformations = ''''\<rparr>"
  let ?e = "\<lparr>directory = '''', filepath = '''', path_to_images = '''',
       default_width = 0, default_height = 0, path_to_transformations = ''''\<rparr>"
  have "''/data/model'' \<noteq> [] \<and> last ''/data/model'' \<noteq> sep
      \<and> directory ?a = ''/data/model'' @ [sep]"
    by (simp add: sep_def)
  with ImportColmap_path_dirname [of "\<lambda>p. False" ?a]
  have a: "ImportColmap_path ?a = ''/data/model''" by blast
  have "directory ?b = ''/data/'' @ ''model'' \<and> sep \<notin> set ''model''
      \<and> (''/data/'' = [] \<or> last ''/data/'' = sep)
      \<and> ''/data/'' = ''/data'' @ replicate 1 sep
      \<and> (if ''/data/'' = replicate (length ''/data/'') sep then ''/data'' = ''/data/''
          else ''/data'' \<noteq> [] \<and> last ''/data'' \<noteq> sep)"
    by (simp add: sep_def)
  then have "\<exists>head base k. directory ?b = head @ base \<and> sep \<notin> set base
      \<and> (head = [] \<or> last head = sep)
      \<and> head = ''/data'' @ replicate k sep
      \<and> (if head = replicate (length head) sep then ''/data'' = head
          else ''/data'' \<noteq> [] \<and> last ''/data'' \<noteq> sep)"
    by blast
  with ImportColmap_path_dirname [of "\<lambda>p. False" ?b]
  have b: "ImportColmap_path ?b = ''/data''" by blast
  have "directory ?c = ''/'' @ ''model'' \<and> sep \<notin> set ''model''
      \<and> (''/'' = [] \<or> last ''/'' = sep)
      \<and> ''/'' = ''/'' @ replicate 0 sep
      \<and> (if ''/'' = replicate (length ''/'') sep then ''/'' = ''/''
          else ''/'' \<noteq> [] \<and> last ''/'' \<noteq> sep)"
    by (simp add: sep_def)
  then have "\<exists>head base k. directory ?c = head @ base \<and> sep \<notin> set base
      \<and> (head = [] \<or> last head = sep)
      \<and> head = ''/'' @ replicate k sep
      \<and> (if head = replicate (length head) sep then ''/'' = head
          else ''/'' \<noteq> [] \<and> last ''/'' \<noteq> sep)"
    by blast
  with ImportColmap_path_dirname [of "\<lambda>p. False" ?c]
  have c: "ImportColmap_path ?c = ''/''" by blast
  have "directory ?e = []" by simp
  with ImportColmap_path_dirname [of "\<lambda>p. False" ?e]
  have e: "ImportColmap_path ?e = []" by blast
  from a b c e show ?thesis by simp
qed

section \<open>Cameras whose image cannot be resolved\<close>

text \<open>
  C4. In NVM image resolution, every camera whose dimensions are to be read from its image
  (they are unset, as for every camera of an NVM file) and whose referenced image file
  cannot be located or read gets the caller-supplied default width and height; one
  \<open>UnresolvedImage\<close> warning is reported for each such camera, in camera order, and for no
  other; the resolve call returns all the cameras, together with an indicator that is
  false exactly when some camera was left unresolved. The import is not aborted for this
  reason: whenever the NVM file parses, the import ends as the import of the points ends,
  with these cameras in the scene, so it fails only if the import of the points fails.
\<close>

theorem ImportNVM_import_unresolved_images:
  "parse_nvm_file (fst (ImportNVM_prepare isdir self)) (snd (ImportNVM_prepare isdir self))
      = Inr (cameras, points) \<longrightarrow>
   (\<exists>res.
      ImportNVM_import isdir read_size parse_nvm_file import_points self =
        (case import_points (snd (ImportNVM_prepare isdir self)) points of
           Inl e \<Rightarrow> Inl e
         | Inr points_done \<Rightarrow> Inr (res, points_done))
    \<and> ImportNVM_enhance_camera_with_images
         (\<lambda>cameras image_dir dw dh op. resolve_images read_size cameras image_dir dw dh)
         (snd (ImportNVM_prepare isdir self)) cameras
       = ((scene_cameras res, all_resolved res), reported res, files_opened res)
    \<and> length (scene_cameras res) = length cameras
    \<and> map camera_id (scene_cameras res) = map camera_id cameras
    \<and> (\<forall>i < length cameras.
          unresolved read_size (path_to_images (snd (ImportNVM_prepare isdir self)))
            (cameras ! i) \<longrightarrow>
          scene_cameras res ! i = (cameras ! i)\<lparr>width := Some (default_width self),
                                                height := Some (default_height self)\<rparr>)
    \<and> reported res =
        map (\<lambda>c. UnresolvedImage (camera_id c))
          (filter (unresolved read_size (path_to_images (snd (ImportNVM_prepare isdir self))))
             cameras)
    \<and> (all_resolved res \<longleftrightarrow>
          \<not> (\<exists>c \<in> set cameras.
                unresolved read_size (path_to_images (snd (ImportNVM_prepare isdir self))) c)))"
proof
  let ?self = "snd (ImportNVM_prepare isdir self)"
  let ?dir = "path_to_images ?self"
  let ?r = "resolve_all read_size ?dir (default_width ?self) (default_height ?self) cameras"
  let ?res = "\<lparr>scene_cameras = fst ?r, all_resolved = (fst (snd ?r) = []),
      reported = fst (snd ?r), files_opened = snd (snd ?r)\<rparr>"
  assume "parse_nvm_file (fst (ImportNVM_prepare isdir self)) ?self = Inr (cameras, points)"
  then have run: "ImportNVM_import isdir read_size parse_nvm_file import_points self =
      (case import_points ?self points of
         Inl e \<Rightarrow> Inl e
       | Inr points_done \<Rightarrow> Inr (?res, points_done))"
    by (simp add: ImportNVM_import_unfold Let_def)
  have call: "ImportNVM_enhance_camera_with_images
         (\<lambda>cameras image_dir dw dh op. resolve_images read_size cameras image_dir dw dh)
         ?self cameras
       = ((scene_cameras ?res, all_resolved ?res), reported ?res, files_opened ?res)"
    by (simp add: ImportNVM_enhance_camera_with_images_def resolve_images_def
        split: prod.splits)
  have len: "length (scene_cameras ?res) = length cameras"
    by (simp add: resolve_all_cameras)
  have ids: "map camera_id (scene_cameras ?res) = map camera_id cameras"
    by (simp add: resolve_all_cameras resolve_camera_id)
  have dflt: "\<forall>i < length cameras. unresolved read_size ?dir (cameras ! i) \<longrightarrow>
      scene_cameras ?res ! i = (cameras ! i)\<lparr>width := Some (default_width self),
                                             height := Some (default_height self)\<rparr>"
    by (simp add: resolve_all_cameras resolve_camera_unresolved ImportNVM_prepare_defaults)
  have ws: "reported ?res = map (\<lambda>c. UnresolvedImage (camera_id c))
      (filter (unresolved read_size ?dir) cameras)"
    by (simp add: resolve_all_warnings_filter)
  have ok: "all_resolved ?res \<longleftrightarrow> \<not> (\<exists>c \<in> set cameras. unresolved read_size ?dir c)"
    by (simp add: resolve_all_warnings_filter filter_empty_conv)
  from run call len ids dflt ws ok
  show "\<exists>res.
      ImportNVM_import isdir read_size parse_nvm_file import_points self =
        (case import_points ?self points of
           Inl e \<Rightarrow> Inl e
         | Inr points_done \<Rightarrow> Inr (res, points_done))
    \<and> ImportNVM_enhance_camera_with_images
         (\<lambda>cameras image_dir dw dh op. resolve_images read_size cameras image_dir dw dh)
         ?self cameras
       = ((scene_cameras res, all_resolved res), reported res, files_opened res)
    \<and> length (scene_cameras res) = length cameras
    \<and> map camera_id (scene_cameras res) = map camera_id cameras
    \<and> (\<forall>i < length cameras.
          unresolved read_size ?dir (cameras ! i) \<longrightarrow>
          scene_cameras res ! i = (cameras ! i)\<lparr>width := Some (default_width self),
                                                height := Some (default_height self)\<rparr>)
    \<and> reported res =
        map (\<lambda>c. UnresolvedImage (camera_id c)) (filter (unresolved read_size ?dir) cameras)
    \<and> (all_resolved res \<longleftrightarrow> \<not> (\<exists>c \<in> set cameras. unresolved read_size ?dir c))"
    by blast
qed

theorem ImportNVM_import_unresolved_images_witness:
  "unresolved (\<lambda>p. if p = ''/img/a.jpg'' then Some (640, 480) else None) ''/img''
      (camera_without_size 2 ''b.jpg'')
   \<and> ImportNVM_import (\<lambda>p. False)
        (\<lambda>p. if p = ''/img/a.jpg'' then Some (640, 480) else None)
        (\<lambda>path op. Inr ([camera_without_size 1 ''a.jpg'', camera_without_size 2 ''b.jpg''],
                         [7 :: nat]))
        (\<lambda>op pts. Inr pts)
        \<lparr>directory = ''/rec/'', filepath = ''model.nvm'', path_to_images = ''/img'',
         default_width = 100, default_height = 50, path_to_transformations = ''''\<rparr>
     = Inr (\<lparr>scene_cameras =
               [(camera_without_size 1 ''a.jpg'')\<lparr>width := Some 640, height := Some 480\<rparr>,
                (camera_without_size 2 ''b.jpg'')\<lparr>width := Some 100, height := Some 50\<rparr>],
             all_resolved = False,
             reported = [UnresolvedImage 2],
             files_opened = [''/img/a.jpg'', ''/img/b.jpg'']\<rparr>,
            [7])"
proof -
  let ?self = "\<lparr>directory = ''/rec/'', filepath = ''model.nvm'', path_to_images = ''/img'',
         default_width = 100, default_height = 50, path_to_transformations = ''''\<rparr>"
  let ?read = "\<lambda>p. if p = ''/img/a.jpg'' then Some (640 :: int, 480 :: int) else None"
  let ?cams = "[camera_without_size 1 ''a.jpg'', camera_without_size 2 ''b.jpg'']"
  let ?parse = "\<lambda>(path :: string) (op :: import_op).
      (Inr (?cams, [7 :: nat]) :: import_error + Camera list \<times> nat list)"
  let ?points = "\<lambda>(op :: import_op) (pts :: nat list). (Inr pts :: import_error + nat list)"
  have dir: "path_to_images (snd (ImportNVM_prepare (\<lambda>p. False) ?self)) = ''/img''"
    by (simp add: ImportNVM_prepare_def get_default_image_path_def Let_def)
  have u: "unresolved ?read ''/img'' (camera_without_size 2 ''b.jpg'')"
    by (simp add: unresolved_def dimensions_unset_def camera_without_size_def join_def
        startswith_def endswith_def sep_def)
  have "?parse (fst (ImportNVM_prepare (\<lambda>p. False) ?self))
      (snd (ImportNVM_prepare (\<lambda>p. False) ?self)) = Inr (?cams, [7])"
    by simp
  with ImportNVM_import_unresolved_images [where isdir = "\<lambda>p. False" and self = ?self
      and parse_nvm_file = ?parse and import_points = ?points and read_size = ?read
      and cameras = ?cams and points = "[7]"]
  obtain res where res:
      "ImportNVM_import (\<lambda>p. False) ?read ?parse ?points ?self = Inr (res, [7])"
      "ImportNVM_enhance_camera_with_images
         (\<lambda>cameras image_dir dw dh op. resolve_images ?read cameras image_dir dw dh)
         (snd (ImportNVM_prepare (\<lambda>p. False) ?self)) ?cams
       = ((scene_cameras res, all_resolved res), reported res, files_opened res)"
    by auto
  have "ImportNVM_enhance_camera_with_images
         (\<lambda>cameras image_dir dw dh op. resolve_images ?read cameras image_dir dw dh)
         (snd (ImportNVM_prepare (\<lambda>p. False) ?self)) ?cams
       = (([(camera_without_size 1 ''a.jpg'')\<lparr>width := Some 640, height := Some 480\<rparr>,
            (camera_without_size 2 ''b.jpg'')\<lparr>width := Some 100, height := Some 50\<rparr>],
           False),
          [UnresolvedImage 2], [''/img/a.jpg'', ''/img/b.jpg''])"
    by (simp add: ImportNVM_enhance_camera_with_images_def resolve_images_def
        resolve_camera_def dimensions_unset_def camera_without_size_def
        ImportNVM_prepare_def get_default_image_path_def join_def startswith_def
        endswith_def sep_def Let_def)
  with res(2) have "res =
      \<lparr>scene_cameras =
         [(camera_without_size 1 ''a.jpg'')\<lparr>width := Some 640, height := Some 480\<rparr>,
          (camera_without_size 2 ''b.jpg'')\<lparr>width := Some 100, height := Some 50\<rparr>],
       all_resolved = False,
       reported = [UnresolvedImage 2],
       files_opened = [''/img/a.jpg'', ''/img/b.jpg'']\<rparr>"
    by (cases res) simp
  with res(1) u show ?thesis by simp
qed

section \<open>The order of the transformation chain\<close>

text \<open>
  C2. The transformation-chain parser returns the transforms of the files of the
  directory ordered by file name, lexicographically, whatever the order in which the
  directory lists them. The effective transform of a sequence is the composition
  \<open>T_n \<circ> \<dots> \<circ> T_1\<close>: it is the identity on the empty sequence, and a further transform at the
  end of the sequence is applied after all the others; each transform takes \<open>p\<close> to
  \<open>scale * rotation * p + translation\<close>. So for two files that define \<open>A\<close> and \<open>B\<close>, the name of
  \<open>A\<close>'s file before that of \<open>B\<close>'s, the sequence is \<open>A, B\<close> in either listing order, a PLY
  import moves every point \<open>p\<close> to \<open>B (A p)\<close>, and at a probe point where \<open>A\<close> and \<open>B\<close> do
  not commute this differs from applying \<open>B\<close> then \<open>A\<close>.
\<close>

theorem transformation_chain_order:
  "(\<forall>listing Ts. parse_transformation_folder matches parse_file (Some listing) = Inr Ts \<longrightarrow>
        Ts = map (\<lambda>f. the (parse_file (snd f)))
               (sort_key fst (filter (\<lambda>f. matches (fst f)) listing))
        \<and> sorted (map fst (sort_key fst (filter (\<lambda>f. matches (fst f)) listing))))
   \<and> (\<forall>listing listing'. set listing = set listing' \<and> distinct (map fst listing)
          \<and> distinct (map fst listing') \<longrightarrow>
        parse_transformation_folder matches parse_file (Some listing) =
        parse_transformation_folder matches parse_file (Some listing'))
   \<and> effective_transform [] p = p
   \<and> effective_transform (Ts @ [T]) p = apply_transform T (effective_transform Ts p)
   \<and> apply_transform T p =
       add_vec (scale_vec (scale T) (mat_vec (rotation T) p)) (translation T)
   \<and> (name_A < name_B \<and> matches name_A \<and> matches name_B
        \<and> parse_file cA = Some A \<and> parse_file cB = Some B \<longrightarrow>
        parse_transformation_folder matches parse_file (Some [(name_A, cA), (name_B, cB)])
          = Inr [A, B]
      \<and> parse_transformation_folder matches parse_file (Some [(name_B, cB), (name_A, cA)])
          = Inr [A, B]
      \<and> effective_transform [A, B] p = apply_transform B (apply_transform A p)
      \<and> (parse_ply_file (join (directory self) (filepath self)) = Inr points
           \<and> listdir (path_to_transformations self) = Some [(name_B, cB), (name_A, cA)] \<longrightarrow>
           ImportPLY_execute parse_ply_file
             (\<lambda>dp op. parse_transformation_folder matches parse_file (listdir dp))
             (\<lambda>points Ts. transform_points Ts points) self
           = Inr (map (\<lambda>pt. pt\<lparr>position := apply_transform B (apply_transform A (position pt))\<rparr>)
                   points))
      \<and> (apply_transform B (apply_transform A p) \<noteq> apply_transform A (apply_transform B p) \<longrightarrow>
           effective_transform [A, B] p \<noteq> apply_transform A (apply_transform B p)
         \<and> effective_transform [A, B] p \<noteq> effective_transform [B, A] p))"
proof (intro conjI allI impI)
  fix listing Ts
  assume "parse_transformation_folder matches parse_file (Some listing) = Inr Ts"
  then show "Ts = map (\<lambda>f. the (parse_file (snd f)))
               (sort_key fst (filter (\<lambda>f. matches (fst f)) listing))"
    by (simp add: parse_transformation_folder_def parse_files_Inr)
next
  fix listing :: "(string \<times> 'a) list"
  show "sorted (map fst (sort_key fst (filter (\<lambda>f. matches (fst f)) listing)))"
    by simp
next
  fix listing listing' :: "(string \<times> 'a) list"
  assume "set listing = set listing' \<and> distinct (map fst listing) \<and> distinct (map fst listing')"
  then have "sort_key fst (filter (\<lambda>f. matches (fst f)) listing) =
      sort_key fst (filter (\<lambda>f. matches (fst f)) listing')"
    by (intro filter_listing_order) simp_all
  then show "parse_transformation_folder matches parse_file (Some listing) =
        parse_transformation_folder matches parse_file (Some listing')"
    by (simp add: parse_transformation_folder_def)
next
  show "effective_transform [] p = p" by simp
next
  show "effective_transform (Ts @ [T]) p = apply_transform T (effective_transform Ts p)"
    by (rule effective_transform_append)
next
  show "apply_transform T p =
       add_vec (scale_vec (scale T) (mat_vec (rotation T) p)) (translation T)"
    by (simp add: apply_transform_def)
next
  assume a: "name_A < name_B \<and> matches name_A \<and> matches name_B
        \<and> parse_file cA = Some A \<and> parse_file cB = Some B"
  then show ab: "parse_transformation_folder matches parse_file
      (Some [(name_A, cA), (name_B, cB)]) = Inr [A, B]"
    by (intro parse_two_files(1)) simp_all
  from a show ba: "parse_transformation_folder matches parse_file
      (Some [(name_B, cB), (name_A, cA)]) = Inr [A, B]"
    by (intro parse_two_files(2)) simp_all
  show "effective_transform [A, B] p = apply_transform B (apply_transform A p)" by simp
  {
    assume "parse_ply_file (join (directory self) (filepath self)) = Inr points
           \<and> listdir (path_to_transformations self) = Some [(name_B, cB), (name_A, cA)]"
    with ba show "ImportPLY_execute parse_ply_file
             (\<lambda>dp op. parse_transformation_folder matches parse_file (listdir dp))
             (\<lambda>points Ts. transform_points Ts points) self
           = Inr (map (\<lambda>pt. pt\<lparr>position := apply_transform B (apply_transform A (position pt))\<rparr>)
                   points)"
      by (simp add: ImportPLY_execute_def transform_points_def Let_def)
  }
  assume "apply_transform B (apply_transform A p) \<noteq> apply_transform A (apply_transform B p)"
  then show "effective_transform [A, B] p \<noteq> apply_transform A (apply_transform B p)"
    and "effective_transform [A, B] p \<noteq> effective_transform [B, A] p" by simp_all
qed

theorem transformation_chain_order_witness:
  "''01_shift.txt'' < ''02_scale.txt''
   \<and> parse_transformation_folder (\<lambda>n. True) Some
        (Some [(''02_scale.txt'', \<lparr>rotation = identity_rotation, translation = (0, 0, 0), scale = 2\<rparr>),
               (''01_shift.txt'', \<lparr>rotation = identity_rotation, translation = (1, 0, 0), scale = 1\<rparr>)])
      = Inr [\<lparr>rotation = identity_rotation, translation = (1, 0, 0), scale = 1\<rparr>,
             \<lparr>rotation = identity_rotation, translation = (0, 0, 0), scale = 2\<rparr>]
   \<and> effective_transform
        [\<lparr>rotation = identity_rotation, translation = (1, 0, 0), scale = 1\<rparr>,
         \<lparr>rotation = identity_rotation, translation = (0, 0, 0), scale = 2\<rparr>] (0, 0, 0)
      = (2, 0, 0)
   \<and> effective_transform
        [\<lparr>rotation = identity_rotation, translation = (0, 0, 0), scale = 2\<rparr>,
         \<lparr>rotation = identity_rotation, translation = (1, 0, 0), scale = 1\<rparr>] (0, 0, 0)
      = (1, 0, 0)"
proof -
  let ?A = "\<lparr>rotation = identity_rotation, translation = (1, 0, 0), scale = 1\<rparr>"
  let ?B = "\<lparr>rotation = identity_rotation, translation = (0, 0, 0), scale = 2\<rparr>"
  have names: "''01_shift.txt'' < ''02_scale.txt''" by (simp add: less_char_def)
  have BA: "apply_transform ?B (apply_transform ?A (0, 0, 0)) = (2, 0, 0)"
    by (simp add: apply_transform_def identity_rotation_def)
  have AB: "apply_transform ?A (apply_transform ?B (0, 0, 0)) = (1, 0, 0)"
    by (simp add: apply_transform_def identity_rotation_def)
  have hyp: "''01_shift.txt'' < ''02_scale.txt'' \<and> (\<lambda>n. True) ''01_shift.txt''
      \<and> (\<lambda>n. True) ''02_scale.txt'' \<and> Some ?A = Some ?A \<and> Some ?B = Some ?B"
    using names by simp
  note inst = transformation_chain_order [where matches = "\<lambda>n. True" and parse_file = Some
      and name_A = "''01_shift.txt''" and name_B = "''02_scale.txt''" and cA = ?A and cB = ?B
      and A = ?A and B = ?B and p = "(0, 0, 0)"]
  from inst hyp have "parse_transformation_folder (\<lambda>n. True) Some
        (Some [(''02_scale.txt'', ?B), (''01_shift.txt'', ?A)]) = Inr [?A, ?B]"
    by blast
  moreover from inst hyp have "effective_transform [?A, ?B] (0, 0, 0)
      = apply_transform ?B (apply_transform ?A (0, 0, 0))"
    by blast
  moreover have "effective_transform [?B, ?A] (0, 0, 0) = (1, 0, 0)"
    using AB by simp
  ultimately show ?thesis using names BA by simp
qed

end
